theory Spec2Isabelle
  imports Main
begin

section \<open>Data model\<close>

text \<open>
  The program only compares dates. A date is written here as the integer \<open>YYYYMMDD\<close> of its
  ISO string (\<^verbatim>\<open>"2015-10-09"\<close> is \<open>20151009\<close>), which orders dates as the calendar and as
  the timestamps of \<^verbatim>\<open>pd.to_datetime\<close> do. The hire dates, ISO strings in the source that
  pandas turns into timestamps when it compares them with the column, are dates of the same
  kind.
\<close>

type_synonym date = int

text \<open>
  One row of a match dataframe. The five named columns are the ones the program reads; every
  other column of the provider's table lives in the extension part of the record.
\<close>

record match =
  match_date :: date
  home_team :: string
  away_team :: string
  home_score :: int
  away_score :: int

text \<open>
  A dataframe: its rows in order, each with its row label (the frame's index, of any type
  \<open>'l\<close>; nothing makes the labels of a frame distinct), and the two derived columns, each
  of which is absent (\<open>None\<close>) until the operation responsible for it assigns it.
\<close>

record ('l, 'a) dataframe =
  labelled :: "('l \<times> 'a match_scheme) list"
  is_manager_bounce :: "int list option"
  points_from_match :: "int list option"

text \<open>The index of a frame, and its rows without their labels.\<close>

definition row_labels :: "('l, 'a) dataframe \<Rightarrow> 'l list" where
  "row_labels df = map fst (labelled df)"

definition rows :: "('l, 'a) dataframe \<Rightarrow> 'a match_scheme list" where
  "rows df = map snd (labelled df)"

datatype error = IndexError | KeyError

section \<open>Library operations\<close>

text \<open>
  \<^verbatim>\<open>series.iloc[i]\<close>: positional access. A negative position counts from the end, and a
  position outside the series raises \<^verbatim>\<open>IndexError\<close>.
\<close>

definition iloc :: "'a list \<Rightarrow> int \<Rightarrow> error + 'a" where
  "iloc s i =
     (if 0 \<le> i \<and> i < int (length s) then Inr (s ! nat i)
      else if i < 0 \<and> - int (length s) \<le> i then Inr (s ! nat (int (length s) + i))
      else Inl IndexError)"

text \<open>
  \<^verbatim>\<open>df.loc[index, column] = v\<close>: the assignment by row label. Every row whose label is
  \<open>index\<close> gets the value, so a label that several rows carry assigns all of them.
\<close>

definition loc_assign :: "'l list \<Rightarrow> 'l \<Rightarrow> int \<Rightarrow> int list \<Rightarrow> int list" where
  "loc_assign labels index v col = map (\<lambda>lp. if fst lp = index then v else snd lp) (zip labels col)"

text \<open>
  \<^verbatim>\<open>np.select(condlist, choicelist)\<close> with scalar choices and the default \<open>0\<close>: at each
  position the choice of the first condition that holds there, and \<open>0\<close> when none does.
\<close>

fun first_true :: "bool list \<Rightarrow> int list \<Rightarrow> int" where
  "first_true (c # cs) (v # vs) = (if c then v else first_true cs vs)"
| "first_true _ _ = 0"

definition np_select :: "bool list list \<Rightarrow> int list \<Rightarrow> int list" where
  "np_select condlist choicelist =
     (case condlist of
        [] \<Rightarrow> []
      | c0 # _ \<Rightarrow> map (\<lambda>i. first_true (map (\<lambda>c. c ! i) condlist) choicelist) [0..<length c0])"

section \<open>Bounce labeler\<close>

text \<open>
  \<^verbatim>\<open>add_managerial_change_column(df, first_manager_hire_date, second_manager_hire_date,
  number_hired_managers, number_of_matches_in_bounce)\<close>. The positional access raises before
  the column is assigned, so a failing call returns no frame.
\<close>

definition add_managerial_change_column ::
  "('l, 'a) dataframe \<Rightarrow> date \<Rightarrow> date \<Rightarrow> int \<Rightarrow> int \<Rightarrow> error + ('l, 'a) dataframe" where
  "add_managerial_change_column df first_manager_hire_date second_manager_hire_date
       number_hired_managers number_of_matches_in_bounce =
     (let dates = map match_date (rows df) in
      if number_hired_managers = 1 then
        (case iloc (filter (\<lambda>d. d > first_manager_hire_date) dates)
                   (number_of_matches_in_bounce - 1) of
           Inl e \<Rightarrow> Inl e
         | Inr last_match_date_of_bounce \<Rightarrow>
             (let not_bounce_condition =
                    map (\<lambda>d. d < first_manager_hire_date \<or> d > last_match_date_of_bounce) dates;
                  is_bounce_condition =
                    map (\<lambda>d. d \<ge> first_manager_hire_date \<and> d \<le> last_match_date_of_bounce) dates
              in Inr (df\<lparr>is_manager_bounce :=
                          Some (np_select [not_bounce_condition, is_bounce_condition] [0, 1])\<rparr>)))
      else if number_hired_managers = 2 then
        (case iloc (filter (\<lambda>d. d \<ge> first_manager_hire_date) dates)
                   (number_of_matches_in_bounce - 1) of
           Inl e \<Rightarrow> Inl e
         | Inr last_match_date_of_first_bounce \<Rightarrow>
        (case iloc (filter (\<lambda>d. d \<ge> second_manager_hire_date) dates)
                   (number_of_matches_in_bounce - 1) of
           Inl e \<Rightarrow> Inl e
         | Inr last_match_date_of_second_bounce \<Rightarrow>
             (let not_bounce_condition =
                    map (\<lambda>d. d < first_manager_hire_date
                            \<or> (d > last_match_date_of_first_bounce \<and> d < second_manager_hire_date)
                            \<or> d > last_match_date_of_second_bounce) dates;
                  is_bounce_condition =
                    map (\<lambda>d. (d \<ge> first_manager_hire_date \<and> d \<le> last_match_date_of_first_bounce)
                            \<or> (d \<ge> second_manager_hire_date \<and> d \<le> last_match_date_of_second_bounce))
                        dates
              in Inr (df\<lparr>is_manager_bounce :=
                          Some (np_select [not_bounce_condition, is_bounce_condition] [0, 1])\<rparr>))))
      else Inr df)"

section \<open>Points calculator\<close>

text \<open>
  The body of the loop of \<^verbatim>\<open>add_points_from_match_column\<close> for one pair
  \<^verbatim>\<open>(index, row)\<close> of \<^verbatim>\<open>df.iterrows()\<close>: the column after the assignment
  \<^verbatim>\<open>df.loc[index, "points_from_match"] = ...\<close> of the branch taken, or the column as it
  was when the team is on neither side. \<open>labels\<close> is the index of the frame.
\<close>

definition award :: "string \<Rightarrow> 'l list \<Rightarrow> int list \<Rightarrow> 'l \<times> 'a match_scheme \<Rightarrow> int list" where
  "award team_name labels col ir =
     (let index = fst ir; row = snd ir;
          home_team_name = home_team row; away_team_name = away_team row;
          home_team_score = home_score row; away_team_score = away_score row
      in if home_team_name = team_name then
           (if home_team_score > away_team_score then loc_assign labels index 3 col
            else if home_team_score = away_team_score then loc_assign labels index 1 col
            else loc_assign labels index 0 col)
         else if away_team_name = team_name then
           (if away_team_score > home_team_score then loc_assign labels index 3 col
            else if home_team_score = away_team_score then loc_assign labels index 1 col
            else loc_assign labels index 0 col)
         else col)"

text \<open>
  \<^verbatim>\<open>add_points_from_match_column(df, team_name)\<close>: the column is initialised with
  \<^verbatim>\<open>np.repeat(0, len(df))\<close>, then the loop visits the pairs of label and row that
  \<^verbatim>\<open>df.iterrows()\<close> yields, in row order.
\<close>

definition add_points_from_match_column ::
  "('l, 'a) dataframe \<Rightarrow> string \<Rightarrow> ('l, 'a) dataframe" where
  "add_points_from_match_column df team_name =
     df\<lparr>points_from_match :=
          Some (fold (\<lambda>ir col. award team_name (row_labels df) col ir) (labelled df)
                     (replicate (length (labelled df)) 0))\<rparr>"

section \<open>Pipeline\<close>

text \<open>
  \<^verbatim>\<open>extract_teams_matches_during_season\<close>, from the table the loader returns
  (\<open>all_matches\<close>, the fetched match dataset, rows with their labels): the rows in which the
  team is on either side, sorted by date; a row keeps its label. \<^verbatim>\<open>sort_values\<close> is
  pandas' sort by \<^verbatim>\<open>match_date\<close> and is a parameter. The provider's table has neither
  derived column.
\<close>

definition extract_teams_matches_during_season ::
  "(('l \<times> 'a match_scheme) list \<Rightarrow> ('l \<times> 'a match_scheme) list)
     \<Rightarrow> ('l \<times> 'a match_scheme) list \<Rightarrow> string \<Rightarrow> ('l, 'a) dataframe" where
  "extract_teams_matches_during_season sort_values all_matches team_name =
     \<lparr>labelled = sort_values
                   (filter (\<lambda>lm. home_team (snd lm) = team_name \<or> away_team (snd lm) = team_name)
                           all_matches),
      is_manager_bounce = None, points_from_match = None\<rparr>"

text \<open>\<^verbatim>\<open>add_manager_change_and_points_won_columns_to_df\<close>: extract, label, award points.\<close>

definition add_manager_change_and_points_won_columns_to_df ::
  "(('l \<times> 'a match_scheme) list \<Rightarrow> ('l \<times> 'a match_scheme) list)
     \<Rightarrow> ('l \<times> 'a match_scheme) list \<Rightarrow> string
     \<Rightarrow> date \<Rightarrow> date \<Rightarrow> int \<Rightarrow> int \<Rightarrow> error + ('l, 'a) dataframe" where
  "add_manager_change_and_points_won_columns_to_df sort_values all_matches team_name
       first_manager_hire_date second_manager_hire_date number_hired_managers
       number_of_matches_in_bounce =
     (let match_df = extract_teams_matches_during_season sort_values all_matches team_name in
      case add_managerial_change_column match_df first_manager_hire_date second_manager_hire_date
             number_hired_managers number_of_matches_in_bounce of
        Inl e \<Rightarrow> Inl e
      | Inr match_df \<Rightarrow> Inr (add_points_from_match_column match_df team_name))"

section \<open>Aggregator and chart\<close>

text \<open>
  \<^verbatim>\<open>matches.loc[matches["is_manager_bounce"] == v, "points_from_match"].tolist()\<close>: the
  points of the rows whose label is \<open>v\<close>, in row order; a missing column raises
  \<^verbatim>\<open>KeyError\<close>.
\<close>

definition loc_points :: "('l, 'a) dataframe \<Rightarrow> int \<Rightarrow> error + int list" where
  "loc_points matches v =
     (case is_manager_bounce matches of
        None \<Rightarrow> Inl KeyError
      | Some bounce \<Rightarrow>
          (case points_from_match matches of
             None \<Rightarrow> Inl KeyError
           | Some points \<Rightarrow> Inr (map snd (filter (\<lambda>bp. fst bp = v) (zip bounce points)))))"

text \<open>
  The three statements that \<^verbatim>\<open>plot_overall_points_per_game_diff\<close> repeats for each team:
  the pipeline with the default window of 5 matches, then the points of the bounce rows and
  of the other rows.
\<close>

definition team_points ::
  "(('l \<times> 'a match_scheme) list \<Rightarrow> ('l \<times> 'a match_scheme) list)
     \<Rightarrow> ('l \<times> 'a match_scheme) list \<Rightarrow> string
     \<Rightarrow> date \<Rightarrow> date \<Rightarrow> int \<Rightarrow> error + int list \<times> int list" where
  "team_points sort_values all_matches team_name first_manager_hire_date
       second_manager_hire_date number_hired_managers =
     (case add_manager_change_and_points_won_columns_to_df sort_values all_matches team_name
             first_manager_hire_date second_manager_hire_date number_hired_managers 5 of
        Inl e \<Rightarrow> Inl e
      | Inr matches \<Rightarrow>
          (case loc_points matches 1 of
             Inl e \<Rightarrow> Inl e
           | Inr points_bounce \<Rightarrow>
               (case loc_points matches 0 of
                  Inl e \<Rightarrow> Inl e
                | Inr points_no_bounce \<Rightarrow> Inr (points_bounce, points_no_bounce))))"

text \<open>
  What the bar chart shows: the two bar heights, and the two sample sizes written inside the
  bars as \<^verbatim>\<open>N_matches=...\<close>.
\<close>

record 'f chart =
  bar_heights :: "'f list"
  n_matches :: "nat list"

text \<open>
  \<^verbatim>\<open>plot_overall_points_per_game_diff\<close>, up to the chart's heights and sample sizes. The
  significance test, the colours and the titles are left out; they change neither the
  heights nor the sample sizes, and when one of them fails no chart is shown at all.
  \<^verbatim>\<open>np.mean\<close>, numpy's mean of a list in double arithmetic, is a parameter. \<open>17530101\<close> is
  the default second hire date \<^verbatim>\<open>"1753-01-01"\<close>.
\<close>

definition plot_overall_points_per_game_diff ::
  "(('l \<times> 'a match_scheme) list \<Rightarrow> ('l \<times> 'a match_scheme) list) \<Rightarrow> (int list \<Rightarrow> 'f)
     \<Rightarrow> ('l \<times> 'a match_scheme) list \<Rightarrow> error + 'f chart" where
  "plot_overall_points_per_game_diff sort_values np_mean all_matches =
     (case team_points sort_values all_matches ''Sunderland'' 20151009 17530101 1 of
        Inl e \<Rightarrow> Inl e
      | Inr sunderland \<Rightarrow>
     (case team_points sort_values all_matches ''Liverpool'' 20151009 17530101 1 of
        Inl e \<Rightarrow> Inl e
      | Inr liverpool \<Rightarrow>
     (case team_points sort_values all_matches ''Swansea City'' 20151209 20160118 2 of
        Inl e \<Rightarrow> Inl e
      | Inr swansea \<Rightarrow>
     (case team_points sort_values all_matches ''Aston Villa'' 20151102 20160329 2 of
        Inl e \<Rightarrow> Inl e
      | Inr av \<Rightarrow>
     (case team_points sort_values all_matches ''Chelsea'' 20151220 17530101 1 of
        Inl e \<Rightarrow> Inl e
      | Inr chelsea \<Rightarrow>
     (case team_points sort_values all_matches ''Newcastle United'' 20160311 17530101 1 of
        Inl e \<Rightarrow> Inl e
      | Inr newcastle \<Rightarrow>
          (let all_bounce_matches = fst sunderland @ fst liverpool @ fst swansea
                                      @ fst av @ fst chelsea @ fst newcastle;
               all_no_bounce_matches = snd sunderland @ snd liverpool @ snd swansea
                                         @ snd av @ snd chelsea @ snd newcastle;
               ppg_bounce = np_mean all_bounce_matches;
               ppg_no_bounce = np_mean all_no_bounce_matches
           in Inr \<lparr>bar_heights = [ppg_bounce, ppg_no_bounce],
                   n_matches = [length all_bounce_matches, length all_no_bounce_matches]\<rparr>)))))))"

section \<open>The specification's notions\<close>

text \<open>The matches dated on or after a hire date.\<close>

definition on_or_after :: "date \<Rightarrow> 'a match_scheme list \<Rightarrow> 'a match_scheme list" where
  "on_or_after h ms = filter (\<lambda>m. h \<le> match_date m) ms"

text \<open>
  The bounce window as the specification words it: going through the matches in order, the
  first \<open>n\<close> matches dated on or after the hire date are bounce matches (label 1), every
  other match is not (label 0).
\<close>

fun window_labels :: "date \<Rightarrow> nat \<Rightarrow> 'a match_scheme list \<Rightarrow> int list" where
  "window_labels h n [] = []"
| "window_labels h n (m # ms) =
     (if h \<le> match_date m \<and> 0 < n then 1 # window_labels h (n - 1) ms
      else 0 # window_labels h n ms)"

text \<open>
  The points of exactly the matches of a labelled frame that carry the label \<open>v\<close>, and the
  number of those matches.
\<close>

definition group_points :: "('l, 'a) dataframe \<Rightarrow> int \<Rightarrow> int list" where
  "group_points df v =
     (case (is_manager_bounce df, points_from_match df) of
        (Some bs, Some ps) \<Rightarrow>
          concat (map (\<lambda>i. if bs ! i = v then [ps ! i] else []) [0..<length (rows df)])
      | _ \<Rightarrow> [])"

definition group_size :: "('l, 'a) dataframe \<Rightarrow> int \<Rightarrow> nat" where
  "group_size df v =
     (case is_manager_bounce df of
        Some bs \<Rightarrow> length (filter (\<lambda>i. bs ! i = v) [0..<length (rows df)])
      | None \<Rightarrow> 0)"

text \<open>
  The points the loop body assigns for a row, if it assigns any: a reading aid for the
  proofs about \<open>award\<close>.
\<close>

definition awarded :: "string \<Rightarrow> 'a match_scheme \<Rightarrow> int option" where
  "awarded t r =
     (if home_team r = t then
        Some (if home_score r > away_score r then 3
              else if home_score r = away_score r then 1 else 0)
      else if away_team r = t then
        Some (if away_score r > home_score r then 3
              else if home_score r = away_score r then 1 else 0)
      else None)"

section \<open>Sample data\<close>

definition fixture :: "date \<Rightarrow> string \<Rightarrow> string \<Rightarrow> int \<Rightarrow> int \<Rightarrow> match" where
  "fixture d h a hs as =
     \<lparr>match_date = d, home_team = h, away_team = a, home_score = hs, away_score = as\<rparr>"

text \<open>
  Eight consecutive league matches of one team, in date order, labelled \<open>0, 1, ...\<close>.
\<close>

definition rovers :: "(nat, unit) dataframe" where
  "rovers =
     \<lparr>labelled = enumerate 0
              [fixture 20151003 ''Rovers'' ''City'' 2 2,
               fixture 20151017 ''Albion'' ''Rovers'' 1 0,
               fixture 20151025 ''Rovers'' ''United'' 3 0,
               fixture 20151101 ''Town'' ''Rovers'' 6 2,
               fixture 20151107 ''Rovers'' ''Athletic'' 0 1,
               fixture 20151123 ''Palace'' ''Rovers'' 0 1,
               fixture 20151128 ''Rovers'' ''County'' 2 0,
               fixture 20151205 ''Wanderers'' ''Rovers'' 1 1],
      is_manager_bounce = None, points_from_match = None\<rparr>"

text \<open>A frame in which two matches carry the same date.\<close>

definition double_header :: "(nat, unit) dataframe" where
  "double_header =
     \<lparr>labelled = enumerate 0
              [fixture 20151212 ''Rovers'' ''City'' 0 0,
               fixture 20151226 ''Albion'' ''Rovers'' 1 2,
               fixture 20151226 ''Rovers'' ''United'' 1 1,
               fixture 20160102 ''Town'' ''Rovers'' 2 0,
               fixture 20160118 ''Rovers'' ''Athletic'' 1 0,
               fixture 20160124 ''Palace'' ''Rovers'' 1 1,
               fixture 20160202 ''Rovers'' ''County'' 0 3],
      is_manager_bounce = None, points_from_match = None\<rparr>"

text \<open>
  A frame put together from two frames that each label their rows \<open>0, 1\<close>, as
  \<^verbatim>\<open>pd.concat\<close> does when the index is kept: two labels, each on two rows.
\<close>

definition concatenated :: "(nat, unit) dataframe" where
  "concatenated =
     \<lparr>labelled = [(0, fixture 20151003 ''Rovers'' ''City'' 2 2),
                   (1, fixture 20151004 ''City'' ''Albion'' 1 1),
                   (0, fixture 20151017 ''Albion'' ''Rovers'' 1 0),
                   (1, fixture 20151025 ''Rovers'' ''United'' 3 0)],
      is_manager_bounce = None, points_from_match = None\<rparr>"

text \<open>
  A provider table: three matches of August 2015 and a round of fifteen matches in May 2016
  in which each of the six teams with a new manager plays the five others. The rows are
  labelled \<open>0, 1, ...\<close>.
\<close>

definition season_table :: "(nat \<times> match) list" where
  "season_table = enumerate 0
     [fixture 20150808 ''Sunderland'' ''Liverpool'' 0 1,
      fixture 20150815 ''Swansea City'' ''Aston Villa'' 2 2,
      fixture 20150822 ''Chelsea'' ''Newcastle United'' 3 1,
      fixture 20160501 ''Sunderland'' ''Swansea City'' 1 0,
      fixture 20160502 ''Liverpool'' ''Aston Villa'' 2 2,
      fixture 20160503 ''Chelsea'' ''Sunderland'' 0 2,
      fixture 20160504 ''Newcastle United'' ''Liverpool'' 1 1,
      fixture 20160505 ''Swansea City'' ''Chelsea'' 3 1,
      fixture 20160506 ''Aston Villa'' ''Newcastle United'' 0 1,
      fixture 20160507 ''Sunderland'' ''Aston Villa'' 4 0,
      fixture 20160508 ''Liverpool'' ''Swansea City'' 1 2,
      fixture 20160509 ''Newcastle United'' ''Sunderland'' 0 0,
      fixture 20160510 ''Chelsea'' ''Liverpool'' 1 3,
      fixture 20160511 ''Aston Villa'' ''Chelsea'' 1 1,
      fixture 20160512 ''Swansea City'' ''Newcastle United'' 0 2,
      fixture 20160513 ''Liverpool'' ''Sunderland'' 2 1,
      fixture 20160514 ''Aston Villa'' ''Swansea City'' 0 0,
      fixture 20160515 ''Newcastle United'' ''Chelsea'' 2 2]"

text \<open>A sort of labelled rows by match date, for the samples.\<close>

definition by_match_date :: "(nat \<times> match) list \<Rightarrow> (nat \<times> match) list" where
  "by_match_date = sort_key (\<lambda>lm. match_date (snd lm))"

section \<open>Frames: facts\<close>

lemma rows_updates [simp]:
  "rows (df\<lparr>is_manager_bounce := b\<rparr>) = rows df"
  "rows (df\<lparr>points_from_match := p\<rparr>) = rows df"
  by (simp_all add: rows_def)

lemma row_labels_updates [simp]:
  "row_labels (df\<lparr>is_manager_bounce := b\<rparr>) = row_labels df"
  "row_labels (df\<lparr>points_from_match := p\<rparr>) = row_labels df"
  by (simp_all add: row_labels_def)

lemma length_row_labels_rows [simp]:
  "length (row_labels df) = length (labelled df)" "length (rows df) = length (labelled df)"
  by (simp_all add: row_labels_def rows_def)

section \<open>Library operations: facts\<close>

lemma iloc_in_range:
  "1 \<le> n \<Longrightarrow> n \<le> int (length s) \<Longrightarrow> iloc s (n - 1) = Inr (s ! (nat n - 1))"
  by (simp add: iloc_def nat_diff_distrib)

lemma iloc_past_end: "int (length s) < n \<Longrightarrow> iloc s (n - 1) = Inl IndexError"
  by (simp add: iloc_def)

lemma iloc_error: "iloc s i = Inl e \<Longrightarrow> e = IndexError"
  by (simp add: iloc_def split: if_splits)

lemma np_select_two:
  "np_select [map f ds, map g ds] [0, 1] = map (\<lambda>d. if f d then 0 else if g d then 1 else 0) ds"
  by (rule nth_equalityI) (simp_all add: np_select_def)

lemma length_filter_mono:
  "(\<And>x. P x \<Longrightarrow> Q x) \<Longrightarrow> length (filter P xs) \<le> length (filter Q xs)"
  by (induction xs) auto

lemma dates_on_or_after:
  "map match_date (on_or_after h ms) = filter (\<lambda>d. h \<le> d) (map match_date ms)"
  by (simp add: on_or_after_def filter_map o_def)

lemma length_on_or_after:
  "length (on_or_after h ms) = length (filter (\<lambda>d. h \<le> d) (map match_date ms))"
  using dates_on_or_after [of h ms] by (metis length_map)

section \<open>The bounce window on a list with increasing dates\<close>

lemma length_window_labels [simp]: "length (window_labels h n ms) = length ms"
  by (induction ms arbitrary: n) simp_all

lemma window_labels_none: "window_labels h 0 ms = map (\<lambda>m. 0) ms"
  by (induction ms) simp_all

text \<open>
  The window holds \<open>n\<close> matches, or all the matches on or after the hire date when there
  are fewer, and every match in it is dated on or after the hire date.
\<close>

lemma window_labels_count:
  "length (filter (\<lambda>b. b = 1) (window_labels h n ms)) = min n (length (on_or_after h ms))"
  by (induction ms arbitrary: n) (auto simp: on_or_after_def)

lemma window_labels_values: "set (window_labels h n ms) \<subseteq> {0, 1}"
  by (induction ms arbitrary: n) auto

lemma window_labels_from_hire:
  "i < length ms \<Longrightarrow> window_labels h n ms ! i = 1 \<Longrightarrow> h \<le> match_date (ms ! i)"
proof (induction ms arbitrary: n i)
  case Nil
  then show ?case by simp
next
  case (Cons m ms)
  then show ?case
    by (cases i) (auto split: if_splits)
qed

text \<open>
  When the dates increase strictly, the window of the first \<open>n\<close> matches on or after \<open>h\<close> is
  the date range from \<open>h\<close> to the date of the \<open>n\<close>-th of them.
\<close>

lemma window_labels_sorted:
  "sorted_wrt (<) (map match_date ms) \<Longrightarrow> 0 < n \<Longrightarrow>
   n \<le> length (filter (\<lambda>d. h \<le> d) (map match_date ms)) \<Longrightarrow>
   window_labels h n ms =
     map (\<lambda>d. if h \<le> d \<and> d \<le> filter (\<lambda>d. h \<le> d) (map match_date ms) ! (n - 1) then 1 else 0)
         (map match_date ms)"
proof (induction ms arbitrary: n)
  case Nil
  then show ?case by simp
next
  case (Cons m ms)
  let ?ds = "map match_date ms"
  let ?F = "filter (\<lambda>d. h \<le> d) ?ds"
  have later: "\<forall>d \<in> set ?ds. match_date m < d" and sorted: "sorted_wrt (<) ?ds"
    using Cons.prems(1) by simp_all
  show ?case
  proof (cases "h \<le> match_date m")
    case False
    then show ?thesis
      using Cons.IH [OF sorted Cons.prems(2)] Cons.prems(3) by simp
  next
    case True
    show ?thesis
    proof (cases n)
      case 0
      then show ?thesis using Cons.prems(2) by simp
    next
      case (Suc k)
      show ?thesis
      proof (cases k)
        case 0
        then show ?thesis
          using True Suc later by (auto simp: window_labels_none)
      next
        case (Suc j)
        have k: "0 < k" "k \<le> length ?F"
          using Suc \<open>n = Suc k\<close> Cons.prems(3) True by simp_all
        have "?F ! (k - 1) \<in> set ?F"
          using k by (intro nth_mem) simp
        then have "match_date m < ?F ! (k - 1)"
          using later by auto
        then show ?thesis
          using True \<open>n = Suc k\<close> Suc Cons.IH [OF sorted k] by simp
      qed
    qed
  qed
qed

lemma two_hire_arith:
  fixes d :: int
  assumes "h1 \<le> l1" "l1 < h2" "h2 \<le> l2"
  shows "(if d < h1 \<or> (d > l1 \<and> d < h2) \<or> d > l2 then 0
          else if (d \<ge> h1 \<and> d \<le> l1) \<or> (d \<ge> h2 \<and> d \<le> l2) then 1 else (0::int))
         = (if (if h1 \<le> d \<and> d \<le> l1 then 1 else (0::int)) = 1
             \<or> (if h2 \<le> d \<and> d \<le> l2 then 1 else (0::int)) = 1 then 1 else 0)"
    and "\<not> ((if h1 \<le> d \<and> d \<le> l1 then 1 else (0::int)) = 1
           \<and> (if h2 \<le> d \<and> d \<le> l2 then 1 else (0::int)) = 1)"
  using assms by auto

text \<open>
  The single-hire branch on a frame with increasing dates and no match dated on the hire
  date itself: the label column is the window of the first \<open>n\<close> matches after the hire.
\<close>

lemma single_hire_window:
  assumes sorted: "sorted_wrt (<) (map match_date (rows df))"
    and n: "1 \<le> n"
    and enough: "n \<le> int (length (on_or_after h (rows df)))"
    and free: "\<forall>m \<in> set (rows df). match_date m \<noteq> h"
  shows "add_managerial_change_column df h h2 1 n
           = Inr (df\<lparr>is_manager_bounce := Some (window_labels h (nat n) (rows df))\<rparr>)"
proof -
  let ?ds = "map match_date (rows df)"
  let ?F = "filter (\<lambda>d. h \<le> d) ?ds"
  let ?l = "?F ! (nat n - 1)"
  have strict: "filter (\<lambda>d. d > h) ?ds = ?F"
    using free by (intro filter_cong) auto
  have len: "n \<le> int (length ?F)"
    using enough by (simp add: length_on_or_after)
  have natn: "0 < nat n" "nat n \<le> length ?F"
    using n len by linarith+
  have w: "window_labels h (nat n) (rows df) = map (\<lambda>d. if h \<le> d \<and> d \<le> ?l then 1 else 0) ?ds"
    by (rule window_labels_sorted [OF sorted natn])
  have "(if d < h \<or> d > ?l then 0 else if d \<ge> h \<and> d \<le> ?l then 1 else (0::int))
          = (if h \<le> d \<and> d \<le> ?l then 1 else 0)" for d
    by auto
  then show ?thesis
    unfolding add_managerial_change_column_def Let_def strict w
    by (simp only: iloc_in_range [OF n len] np_select_two) simp
qed

section \<open>The points loop\<close>

lemma award_awarded:
  "award t ls col (l, r) = (case awarded t r of None \<Rightarrow> col | Some p \<Rightarrow> loc_assign ls l p col)"
  by (simp add: award_def awarded_def Let_def)

lemma awarded_values: "awarded t r = Some p \<Longrightarrow> p \<in> {0, 1, 3}"
  by (auto simp: awarded_def split: if_splits)

lemma length_loc_assign:
  "length ls = length col \<Longrightarrow> length (loc_assign ls l v col) = length col"
  by (simp add: loc_assign_def)

lemma set_loc_assign: "set (loc_assign ls l v col) \<subseteq> insert v (set col)"
  by (auto simp: loc_assign_def dest: set_zip_rightD)

lemma length_award:
  "length ls = length col \<Longrightarrow> length (award t ls col ir) = length col"
  by (cases ir) (simp add: award_awarded length_loc_assign split: option.split)

lemma set_award: "set col \<subseteq> {0, 1, 3} \<Longrightarrow> set (award t ls col ir) \<subseteq> {0, 1, 3}"
proof (cases ir)
  case (Pair l r)
  assume col: "set col \<subseteq> {0, 1, 3}"
  show ?thesis
  proof (cases "awarded t r")
    case None
    then show ?thesis using col Pair by (simp add: award_awarded)
  next
    case (Some p)
    then have "p \<in> {0, 1, 3}" by (rule awarded_values)
    then show ?thesis
      using col Pair Some set_loc_assign [of ls l p col] by (auto simp: award_awarded)
  qed
qed

lemma length_fold_award:
  "length ls = length col \<Longrightarrow> length (fold (\<lambda>ir col. award t ls col ir) irs col) = length col"
  by (induction irs arbitrary: col) (simp_all add: length_award)

lemma set_fold_award:
  "set col \<subseteq> {0, 1, 3} \<Longrightarrow> set (fold (\<lambda>ir col. award t ls col ir) irs col) \<subseteq> {0, 1, 3}"
  by (induction irs arbitrary: col) (simp_all add: set_award)

text \<open>
  Whatever the labels are, the loop leaves a column with one value per row, each of them 0,
  1 or 3.
\<close>

lemma points_column:
  "\<exists>col. points_from_match (add_points_from_match_column df t) = Some col \<and>
         length col = length (rows df) \<and> set col \<subseteq> {0, 1, 3}"
proof -
  let ?zeros = "replicate (length (labelled df)) (0::int)"
  have "set ?zeros \<subseteq> {0, 1, 3}"
    by auto
  then have "set (fold (\<lambda>ir col. award t (row_labels df) col ir) (labelled df) ?zeros) \<subseteq> {0, 1, 3}"
    by (rule set_fold_award)
  then show ?thesis
    by (simp add: add_points_from_match_column_def length_fold_award)
qed

text \<open>When the labels are distinct, an assignment by label is an assignment by position.\<close>

lemma loc_assign_distinct:
  assumes "distinct ls" "length ls = length col" "k < length ls"
  shows "loc_assign ls (ls ! k) v col = col[k := v]"
proof (rule nth_equalityI)
  show "length (loc_assign ls (ls ! k) v col) = length (col[k := v])"
    using assms(2) by (simp add: loc_assign_def)
next
  fix i assume "i < length (loc_assign ls (ls ! k) v col)"
  then have i: "i < length ls" "i < length col"
    using assms(2) by (simp_all add: loc_assign_def)
  then have "ls ! i = ls ! k \<longleftrightarrow> i = k"
    using assms(1,3) by (simp add: nth_eq_iff_index_eq)
  then show "loc_assign ls (ls ! k) v col ! i = col[k := v] ! i"
    using i by (simp add: loc_assign_def nth_list_update)
qed

text \<open>
  The loop invariant for distinct labels: once the rows from position \<open>k\<close> on have been
  visited, position \<open>i\<close> holds the points of row \<open>i\<close> if that row was visited and
  assigned, and its old value otherwise.
\<close>

lemma fold_award_nth:
  assumes "distinct (map fst lrs)" "length col = length lrs" "k \<le> length lrs" "i < length lrs"
  shows "fold (\<lambda>ir col. award t (map fst lrs) col ir) (drop k lrs) col ! i =
           (if k \<le> i then (case awarded t (snd (lrs ! i)) of None \<Rightarrow> col ! i | Some p \<Rightarrow> p)
            else col ! i)"
  using assms(2,3)
proof (induction "length lrs - k" arbitrary: k col)
  case 0
  then show ?case using assms(4) by simp
next
  case (Suc d)
  then have k: "k < length lrs" by simp
  let ?ls = "map fst lrs"
  let ?col = "award t ?ls col (lrs ! k)"
  have step: "?col = (case awarded t (snd (lrs ! k)) of None \<Rightarrow> col | Some p \<Rightarrow> col[k := p])"
  proof -
    have "lrs ! k = (?ls ! k, snd (lrs ! k))"
      using k by simp
    then have "?col = (case awarded t (snd (lrs ! k)) of None \<Rightarrow> col
                       | Some p \<Rightarrow> loc_assign ?ls (?ls ! k) p col)"
      by (metis award_awarded)
    moreover have "loc_assign ?ls (?ls ! k) p col = col[k := p]" for p
      using assms(1) Suc.prems(1) k by (intro loc_assign_distinct) simp_all
    ultimately show ?thesis by (simp split: option.split)
  qed
  have len: "length ?col = length lrs"
    using Suc.prems(1) by (simp add: length_award)
  have "d = length lrs - Suc k" "Suc k \<le> length lrs"
    using Suc.hyps(2) k by simp_all
  then have IH: "fold (\<lambda>ir col. award t ?ls col ir) (drop (Suc k) lrs) ?col ! i =
           (if Suc k \<le> i then (case awarded t (snd (lrs ! i)) of None \<Rightarrow> ?col ! i | Some p \<Rightarrow> p)
            else ?col ! i)"
    using Suc.hyps(1) len by blast
  have unfold: "fold (\<lambda>ir col. award t ?ls col ir) (drop k lrs) col
                  = fold (\<lambda>ir col. award t ?ls col ir) (drop (Suc k) lrs) ?col"
    using k by (simp add: Cons_nth_drop_Suc [symmetric])
  have ik: "i < length col" using assms(4) Suc.prems(1) by simp
  show ?case
  proof (cases "i = k")
    case True
    then show ?thesis
      unfolding unfold IH using ik by (simp add: step split: option.split)
  next
    case False
    then show ?thesis
      unfolding unfold IH using ik by (auto simp: step split: option.split)
  qed
qed

lemma points_column_distinct:
  assumes "distinct (row_labels df)"
  shows "\<exists>col. points_from_match (add_points_from_match_column df t) = Some col \<and>
           (\<forall>i < length (rows df).
              col ! i = (case awarded t (rows df ! i) of None \<Rightarrow> 0 | Some p \<Rightarrow> p))"
proof -
  let ?lrs = "labelled df"
  have "fold (\<lambda>ir col. award t (map fst ?lrs) col ir) (drop 0 ?lrs) (replicate (length ?lrs) 0) ! i
          = (case awarded t (snd (?lrs ! i)) of None \<Rightarrow> 0 | Some p \<Rightarrow> p)"
    if "i < length ?lrs" for i
    using fold_award_nth [of ?lrs "replicate (length ?lrs) 0" 0 i t] assms that
    by (simp add: row_labels_def split: option.split)
  then show ?thesis
    by (simp add: add_points_from_match_column_def row_labels_def rows_def)
qed

section \<open>Labelled frames and their groups\<close>

lemma select_by_position:
  "map snd (filter (\<lambda>bp. fst bp = v) xs)
     = concat (map (\<lambda>i. if fst (xs ! i) = v then [snd (xs ! i)] else []) [0..<length xs])"
proof (induction xs rule: rev_induct)
  case Nil
  then show ?case by simp
next
  case (snoc x xs)
  have "concat (map (\<lambda>i. if fst ((xs @ [x]) ! i) = v then [snd ((xs @ [x]) ! i)] else [])
                     [0..<length xs])
          = concat (map (\<lambda>i. if fst (xs ! i) = v then [snd (xs ! i)] else []) [0..<length xs])"
    by (rule arg_cong [where f = concat], rule map_cong) (simp_all add: nth_append)
  then show ?case
    using snoc.IH by simp
qed

lemma length_concat_singletons:
  "length (concat (map (\<lambda>i. if P i then [f i] else []) js)) = length (filter P js)"
  by (induction js) simp_all

lemma loc_points_group:
  assumes "is_manager_bounce df = Some bs" "points_from_match df = Some ps"
    and "length bs = length (rows df)" "length ps = length (rows df)"
  shows "loc_points df v = Inr (group_points df v)"
    and "length (group_points df v) = group_size df v"
proof -
  have "concat (map (\<lambda>i. if fst (zip bs ps ! i) = v then [snd (zip bs ps ! i)] else [])
                     [0..<length (rows df)])
          = concat (map (\<lambda>i. if bs ! i = v then [ps ! i] else []) [0..<length (rows df)])"
    using assms(3,4) by (intro arg_cong [where f = concat] map_cong) simp_all
  then show "loc_points df v = Inr (group_points df v)"
    using assms select_by_position [of v "zip bs ps"]
    by (simp add: loc_points_def group_points_def)
  show "length (group_points df v) = group_size df v"
    using assms(1,2) by (simp add: group_points_def group_size_def length_concat_singletons)
qed

lemma labelled_columns:
  assumes "add_managerial_change_column df h1 h2 nh n = Inr df'" and "nh = 1 \<or> nh = 2"
  shows "\<exists>col. is_manager_bounce df' = Some col \<and> length col = length (rows df)"
  using assms
  by (auto simp: add_managerial_change_column_def Let_def np_select_two split: sum.splits)

lemma labelled_rows:
  "add_managerial_change_column df h1 h2 nh n = Inr df' \<Longrightarrow>
   rows df' = rows df \<and> points_from_match df' = points_from_match df"
  by (auto simp: add_managerial_change_column_def Let_def split: if_splits sum.splits)

lemma pipeline_columns:
  assumes "add_manager_change_and_points_won_columns_to_df sv am t h1 h2 nh n = Inr df"
    and "nh = 1 \<or> nh = 2"
  shows "\<exists>bs ps. is_manager_bounce df = Some bs \<and> points_from_match df = Some ps
           \<and> length bs = length (rows df) \<and> length ps = length (rows df)"
proof -
  let ?e = "extract_teams_matches_during_season sv am t"
  obtain d where d: "add_managerial_change_column ?e h1 h2 nh n = Inr d"
      and df: "df = add_points_from_match_column d t"
    using assms(1)
    by (auto simp: add_manager_change_and_points_won_columns_to_df_def Let_def split: sum.splits)
  obtain col where col: "is_manager_bounce d = Some col" "length col = length (rows ?e)"
    using labelled_columns [OF d assms(2)] by blast
  have r: "rows d = rows ?e" using labelled_rows [OF d] by simp
  obtain ps where ps: "points_from_match df = Some ps" "length ps = length (rows d)"
    using points_column [of d t] df by blast
  have "is_manager_bounce df = Some col" "rows df = rows d"
    using col(1) by (simp_all add: df add_points_from_match_column_def)
  then show ?thesis using ps col(2) r by simp
qed

lemma team_points_groups:
  assumes "team_points sv am t h1 h2 nh = Inr pr" and "nh = 1 \<or> nh = 2"
  shows "\<exists>df. add_manager_change_and_points_won_columns_to_df sv am t h1 h2 nh 5 = Inr df
           \<and> fst pr = group_points df 1 \<and> snd pr = group_points df 0
           \<and> length (fst pr) = group_size df 1 \<and> length (snd pr) = group_size df 0"
proof -
  obtain df where df: "add_manager_change_and_points_won_columns_to_df sv am t h1 h2 nh 5 = Inr df"
      and pr: "loc_points df 1 = Inr (fst pr)" "loc_points df 0 = Inr (snd pr)"
    using assms(1) by (auto simp: team_points_def split: sum.splits)
  obtain bs ps where c: "is_manager_bounce df = Some bs" "points_from_match df = Some ps"
      "length bs = length (rows df)" "length ps = length (rows df)"
    using pipeline_columns [OF df assms(2)] by blast
  have "fst pr = group_points df 1" "snd pr = group_points df 0"
    using pr loc_points_group(1) [OF c] by simp_all
  then show ?thesis
    using df loc_points_group(2) [OF c] by simp
qed

section \<open>Claims about the bounce labeler\<close>

text \<open>
  Claim C1. With \<open>number_hired_managers = 1\<close> the bounce matches should be exactly the \<open>N\<close>
  earliest matches dated on or after the hire date. The single-hire branch takes the end of
  the window from the matches dated strictly after the hire date, while it labels from the
  hire date on. On \<open>rovers\<close> with the hire date 2015-10-17, a match day, and \<open>N = 5\<close> the
  code labels six matches, the five earliest on or after the hire date and the one after
  them; with the hire date 2015-11-01, a match day with five matches on or after it, the
  code raises \<^verbatim>\<open>IndexError\<close>.
\<close>

theorem single_hire_counts_from_day_after:
  "add_managerial_change_column rovers 20151017 17530101 1 5
     = Inr (rovers\<lparr>is_manager_bounce := Some [0, 1, 1, 1, 1, 1, 1, 0]\<rparr>)
   \<and> window_labels 20151017 5 (rows rovers) = [0, 1, 1, 1, 1, 1, 0, 0]
   \<and> length (on_or_after 20151101 (rows rovers)) = 5
   \<and> add_managerial_change_column rovers 20151101 17530101 1 5 = Inl IndexError"
  by (simp add: add_managerial_change_column_def rovers_def rows_def fixture_def iloc_def
        np_select_def on_or_after_def)

text \<open>
  Claim C2, as stated, fails at two inputs. On \<open>double_header\<close>, where two matches share a
  date, with hire dates 2015-12-09 and 2016-01-18 and \<open>N = 2\<close>: the dates are sorted, each
  hire date has at least two matches on or after it, the two windows are disjoint, and the
  code labels five matches, three of them in the first window. On \<open>rovers\<close> with hire dates
  2015-10-09 and 2015-11-20 and \<open>N = 0\<close>: both windows are empty, and the code labels
  every match from the first hire date on, since position \<open>N - 1 = -1\<close> is the last match.
\<close>

theorem two_hire_same_date_counterexample:
  "sorted (map match_date (rows double_header))
   \<and> 2 \<le> length (on_or_after 20151209 (rows double_header))
   \<and> 2 \<le> length (on_or_after 20160118 (rows double_header))
   \<and> window_labels 20151209 2 (rows double_header) = [1, 1, 0, 0, 0, 0, 0]
   \<and> window_labels 20160118 2 (rows double_header) = [0, 0, 0, 0, 1, 1, 0]
   \<and> add_managerial_change_column double_header 20151209 20160118 2 2
       = Inr (double_header\<lparr>is_manager_bounce := Some [1, 1, 1, 0, 1, 1, 0]\<rparr>)
   \<and> sorted (map match_date (rows rovers))
   \<and> window_labels 20151009 0 (rows rovers) = [0, 0, 0, 0, 0, 0, 0, 0]
   \<and> window_labels 20151120 0 (rows rovers) = [0, 0, 0, 0, 0, 0, 0, 0]
   \<and> add_managerial_change_column rovers 20151009 20151120 2 0
       = Inr (rovers\<lparr>is_manager_bounce := Some [0, 1, 1, 1, 1, 1, 1, 1]\<rparr>)"
  by (simp add: add_managerial_change_column_def double_header_def rovers_def rows_def fixture_def
        iloc_def np_select_def on_or_after_def)

text \<open>
  Claim C2, amended. Let the match dates increase strictly, let \<open>1 \<le> N\<close>, let each hire
  date have at least \<open>N\<close> matches on or after it, and let the first window end before the
  second hire date (the \<open>N\<close>-th match on or after the first hire date is dated before the
  second hire date). Then \<open>add_managerial_change_column\<close> with \<open>number_hired_managers = 2\<close>
  returns the frame with a label column that is 1 exactly on the matches of the two windows,
  each window being the \<open>N\<close> earliest matches on or after its hire date, and 0 elsewhere; no
  match is in both windows.
\<close>

theorem two_hire_windows:
  assumes sorted: "sorted_wrt (<) (map match_date (rows df))"
    and n: "1 \<le> n"
    and enough1: "n \<le> int (length (on_or_after h1 (rows df)))"
    and enough2: "n \<le> int (length (on_or_after h2 (rows df)))"
    and apart: "match_date (on_or_after h1 (rows df) ! (nat n - 1)) < h2"
  shows "\<exists>col. add_managerial_change_column df h1 h2 2 n = Inr (df\<lparr>is_manager_bounce := Some col\<rparr>)
           \<and> length col = length (rows df)
           \<and> (\<forall>i < length (rows df).
                 col ! i = (if window_labels h1 (nat n) (rows df) ! i = 1
                               \<or> window_labels h2 (nat n) (rows df) ! i = 1 then 1 else 0)
               \<and> \<not> (window_labels h1 (nat n) (rows df) ! i = 1
                      \<and> window_labels h2 (nat n) (rows df) ! i = 1))"
proof -
  let ?ds = "map match_date (rows df)"
  let ?F1 = "filter (\<lambda>d. h1 \<le> d) ?ds"
  let ?F2 = "filter (\<lambda>d. h2 \<le> d) ?ds"
  let ?l1 = "?F1 ! (nat n - 1)"
  let ?l2 = "?F2 ! (nat n - 1)"
  have len: "n \<le> int (length ?F1)" "n \<le> int (length ?F2)"
    using enough1 enough2 by (simp_all add: length_on_or_after)
  have natn: "0 < nat n" "nat n \<le> length ?F1" "nat n \<le> length ?F2"
    using n len by linarith+
  have w1: "window_labels h1 (nat n) (rows df)
              = map (\<lambda>d. if h1 \<le> d \<and> d \<le> ?l1 then 1 else 0) ?ds"
    by (rule window_labels_sorted [OF sorted natn(1) natn(2)])
  have w2: "window_labels h2 (nat n) (rows df)
              = map (\<lambda>d. if h2 \<le> d \<and> d \<le> ?l2 then 1 else 0) ?ds"
    by (rule window_labels_sorted [OF sorted natn(1) natn(3)])
  have m1: "?l1 \<in> set ?F1" and m2: "?l2 \<in> set ?F2"
    using natn by (simp_all del: set_filter)
  have b1: "h1 \<le> ?l1" and b2: "h2 \<le> ?l2"
    using m1 m2 by simp_all
  have "nat n - 1 < length (on_or_after h1 (rows df))"
    using natn(1,2) by (simp add: length_on_or_after)
  then have "match_date (on_or_after h1 (rows df) ! (nat n - 1))
               = map match_date (on_or_after h1 (rows df)) ! (nat n - 1)"
    by (rule nth_map [symmetric])
  then have b3: "?l1 < h2"
    using apart by (simp only: dates_on_or_after)
  let ?f = "\<lambda>d. if d < h1 \<or> (d > ?l1 \<and> d < h2) \<or> d > ?l2 then 0
                else if (d \<ge> h1 \<and> d \<le> ?l1) \<or> (d \<ge> h2 \<and> d \<le> ?l2) then 1 else (0::int)"
  let ?col = "map ?f ?ds"
  have run: "add_managerial_change_column df h1 h2 2 n = Inr (df\<lparr>is_manager_bounce := Some ?col\<rparr>)"
    unfolding add_managerial_change_column_def Let_def
    by (simp only: iloc_in_range [OF n len(1)] iloc_in_range [OF n len(2)] np_select_two) simp
  have "?col ! i = (if window_labels h1 (nat n) (rows df) ! i = 1
                               \<or> window_labels h2 (nat n) (rows df) ! i = 1 then 1 else 0)
        \<and> \<not> (window_labels h1 (nat n) (rows df) ! i = 1
                      \<and> window_labels h2 (nat n) (rows df) ! i = 1)"
    if "i < length (rows df)" for i
  proof -
    have i: "i < length ?ds" using that by simp
    have c: "?col ! i = ?f (?ds ! i)"
      using i by (rule nth_map)
    have a1: "window_labels h1 (nat n) (rows df) ! i
                = (if h1 \<le> ?ds ! i \<and> ?ds ! i \<le> ?l1 then 1 else 0)"
      unfolding w1 using i by (rule nth_map)
    have a2: "window_labels h2 (nat n) (rows df) ! i
                = (if h2 \<le> ?ds ! i \<and> ?ds ! i \<le> ?l2 then 1 else 0)"
      unfolding w2 using i by (rule nth_map)
    show ?thesis
      unfolding c a1 a2 using two_hire_arith [OF b1 b3 b2, of "?ds ! i"] by blast
  qed
  then show ?thesis
    using run by (intro exI [of _ ?col]) simp
qed

text \<open>
  The amended claim C2 on \<open>rovers\<close> with hire dates 2015-10-09 and 2015-11-20 and \<open>N = 2\<close>:
  the second and third match form the first window, the sixth and seventh the second.
\<close>

theorem two_hire_windows_witness:
  "\<exists>col. add_managerial_change_column rovers 20151009 20151120 2 2
            = Inr (rovers\<lparr>is_manager_bounce := Some col\<rparr>)
         \<and> length col = 8
         \<and> col ! 0 = 0 \<and> col ! 1 = 1 \<and> col ! 2 = 1 \<and> col ! 3 = 0 \<and> col ! 5 = 1 \<and> col ! 7 = 0"
proof -
  have s: "sorted_wrt (<) (map match_date (rows rovers))"
    by (simp add: rovers_def rows_def fixture_def)
  have n: "(1::int) \<le> 2" by simp
  have e1: "2 \<le> int (length (on_or_after 20151009 (rows rovers)))"
    by (simp add: rovers_def rows_def fixture_def on_or_after_def)
  have e2: "2 \<le> int (length (on_or_after 20151120 (rows rovers)))"
    by (simp add: rovers_def rows_def fixture_def on_or_after_def)
  have a: "match_date (on_or_after 20151009 (rows rovers) ! (nat 2 - 1)) < 20151120"
    by (simp add: rovers_def rows_def fixture_def on_or_after_def)
  obtain col where col:
      "add_managerial_change_column rovers 20151009 20151120 2 2
         = Inr (rovers\<lparr>is_manager_bounce := Some col\<rparr>)"
      "length col = length (rows rovers)"
      "\<forall>i < length (rows rovers).
         col ! i = (if window_labels 20151009 (nat 2) (rows rovers) ! i = 1
                       \<or> window_labels 20151120 (nat 2) (rows rovers) ! i = 1 then 1 else 0)
         \<and> \<not> (window_labels 20151009 (nat 2) (rows rovers) ! i = 1
                \<and> window_labels 20151120 (nat 2) (rows rovers) ! i = 1)"
    using two_hire_windows [OF s n e1 e2 a] by blast
  have len: "length (rows rovers) = 8"
    by (simp add: rovers_def)
  have "col ! 0 = 0" "col ! 1 = 1" "col ! 2 = 1" "col ! 3 = 0" "col ! 5 = 1" "col ! 7 = 0"
    using col(3) [rule_format, of 0] col(3) [rule_format, of 1] col(3) [rule_format, of 2]
      col(3) [rule_format, of 3] col(3) [rule_format, of 5] col(3) [rule_format, of 7]
    by (simp_all add: rovers_def rows_def fixture_def numeral_2_eq_2)
  then show ?thesis
    using col(1,2) len by auto
qed

text \<open>
  Claim C4. When fewer than \<open>N\<close> matches are dated on or after the hire date (either hire
  date, with two hired managers), \<open>add_managerial_change_column\<close> raises \<^verbatim>\<open>IndexError\<close>: it
  returns no frame with a shorter window.
\<close>

theorem too_few_matches_raises:
  assumes "(number_hired_managers = 1
              \<and> int (length (on_or_after first_manager_hire_date (rows df))) < n)
         \<or> (number_hired_managers = 2
              \<and> (int (length (on_or_after first_manager_hire_date (rows df))) < n
                 \<or> int (length (on_or_after second_manager_hire_date (rows df))) < n))"
  shows "add_managerial_change_column df first_manager_hire_date second_manager_hire_date
           number_hired_managers n = Inl IndexError"
proof -
  let ?dates = "map match_date (rows df)"
  from assms consider
      (one) "number_hired_managers = 1"
        "int (length (filter (\<lambda>d. d \<ge> first_manager_hire_date) ?dates)) < n"
    | (first) "number_hired_managers = 2"
        "int (length (filter (\<lambda>d. d \<ge> first_manager_hire_date) ?dates)) < n"
    | (second) "number_hired_managers = 2"
        "int (length (filter (\<lambda>d. d \<ge> second_manager_hire_date) ?dates)) < n"
    unfolding length_on_or_after by blast
  then show ?thesis
  proof cases
    case one
    have "length (filter (\<lambda>d. d > first_manager_hire_date) ?dates)
            \<le> length (filter (\<lambda>d. d \<ge> first_manager_hire_date) ?dates)"
      by (rule length_filter_mono) simp
    with one(2) have "int (length (filter (\<lambda>d. d > first_manager_hire_date) ?dates)) < n"
      by linarith
    then have "iloc (filter (\<lambda>d. d > first_manager_hire_date) ?dates) (n - 1) = Inl IndexError"
      by (rule iloc_past_end)
    then show ?thesis
      using one(1) by (simp add: add_managerial_change_column_def Let_def)
  next
    case first
    have "iloc (filter (\<lambda>d. d \<ge> first_manager_hire_date) ?dates) (n - 1) = Inl IndexError"
      using first(2) by (rule iloc_past_end)
    then show ?thesis
      using first(1) by (simp add: add_managerial_change_column_def Let_def)
  next
    case second
    have "iloc (filter (\<lambda>d. d \<ge> second_manager_hire_date) ?dates) (n - 1) = Inl IndexError"
      using second(2) by (rule iloc_past_end)
    then show ?thesis
      using second(1)
      by (cases "iloc (filter (\<lambda>d. d \<ge> first_manager_hire_date) ?dates) (n - 1)")
         (auto simp: add_managerial_change_column_def Let_def dest: iloc_error)
  qed
qed

text \<open>
  Claim C4 on \<open>rovers\<close>: four matches are dated on or after 2015-11-07, so a window of five
  raises with one hired manager, and with two when that date is the second hire date.
\<close>

theorem too_few_matches_raises_witness:
  "int (length (on_or_after 20151107 (rows rovers))) < 5
   \<and> add_managerial_change_column rovers 20151107 17530101 1 5 = Inl IndexError
   \<and> add_managerial_change_column rovers 20151009 20151107 2 5 = Inl IndexError"
proof -
  have few: "int (length (on_or_after 20151107 (rows rovers))) < 5"
    by (simp add: rovers_def rows_def fixture_def on_or_after_def)
  show ?thesis
    using few too_few_matches_raises [of 1 20151107 rovers 5 17530101]
      too_few_matches_raises [of 2 20151009 rovers 5 20151107]
    by simp
qed

text \<open>
  Claim C8. When \<open>number_hired_managers\<close> is neither 1 nor 2, \<open>add_managerial_change_column\<close>
  raises nothing and returns the frame as it was given: no \<open>is_manager_bounce\<close> column is
  added.
\<close>

theorem other_manager_count_returns_frame:
  "number_hired_managers \<noteq> 1 \<Longrightarrow> number_hired_managers \<noteq> 2 \<Longrightarrow>
   add_managerial_change_column df first_manager_hire_date second_manager_hire_date
     number_hired_managers number_of_matches_in_bounce = Inr df"
  by (simp add: add_managerial_change_column_def)

text \<open>Claim C8 on \<open>rovers\<close> with three hired managers: the frame still has no label column.\<close>

theorem other_manager_count_returns_frame_witness:
  "add_managerial_change_column rovers 20151009 20151120 3 5 = Inr rovers
   \<and> is_manager_bounce rovers = None"
  using other_manager_count_returns_frame [of 3 rovers 20151009 20151120 5]
  by (simp add: rovers_def)

section \<open>Claims about the points calculator\<close>

text \<open>
  Claim C3, as stated, fails on a frame in which two rows carry one label. On
  \<open>concatenated\<close> and the team Rovers the first row is a home draw of the team, and the
  column holds 0 for it, not 1: the later assignment for the third row, an away defeat under
  the same label, overwrites it.
\<close>

theorem points_repeated_label_counterexample:
  "points_from_match (add_points_from_match_column concatenated ''Rovers'') = Some [0, 3, 0, 3]
   \<and> home_team (rows concatenated ! 0) = ''Rovers''
   \<and> home_score (rows concatenated ! 0) = away_score (rows concatenated ! 0)"
  by (simp add: add_points_from_match_column_def concatenated_def rows_def row_labels_def
        fixture_def award_def loc_assign_def)

text \<open>
  Claim C3, amended. For every frame and team name, \<open>add_points_from_match_column\<close> sets
  the column \<open>points_from_match\<close>, one value per row, each of them 0, 1 or 3. When the row
  labels of the frame are distinct, the value of a row whose home team is the named team is
  3 when the home score is greater, 1 when the scores are equal, 0 otherwise; the value of a
  row whose away team is the named team (and whose home team is not: the source tests the
  home side first) is 3 when the away score is greater, 1 when the scores are equal, 0
  otherwise.
\<close>

theorem points_from_match_rule:
  "\<exists>col. points_from_match (add_points_from_match_column df team_name) = Some col \<and>
         length col = length (rows df) \<and>
         (\<forall>i < length (rows df). col ! i \<in> {0, 1, 3}) \<and>
         (distinct (row_labels df) \<longrightarrow>
            (\<forall>i < length (rows df).
               (home_team (rows df ! i) = team_name \<longrightarrow>
                  col ! i = (if home_score (rows df ! i) > away_score (rows df ! i) then 3
                             else if home_score (rows df ! i) = away_score (rows df ! i) then 1
                             else 0)) \<and>
               (home_team (rows df ! i) \<noteq> team_name \<and> away_team (rows df ! i) = team_name \<longrightarrow>
                  col ! i = (if away_score (rows df ! i) > home_score (rows df ! i) then 3
                             else if home_score (rows df ! i) = away_score (rows df ! i) then 1
                             else 0))))"
proof -
  obtain col where col: "points_from_match (add_points_from_match_column df team_name) = Some col"
      "length col = length (rows df)" "set col \<subseteq> {0, 1, 3}"
    using points_column by blast
  have in_range: "\<forall>i < length (rows df). col ! i \<in> {0, 1, 3}"
    using col(2,3) by (metis nth_mem subsetD)
  have computed: "\<forall>i < length (rows df).
               (home_team (rows df ! i) = team_name \<longrightarrow>
                  col ! i = (if home_score (rows df ! i) > away_score (rows df ! i) then 3
                             else if home_score (rows df ! i) = away_score (rows df ! i) then 1
                             else 0)) \<and>
               (home_team (rows df ! i) \<noteq> team_name \<and> away_team (rows df ! i) = team_name \<longrightarrow>
                  col ! i = (if away_score (rows df ! i) > home_score (rows df ! i) then 3
                             else if home_score (rows df ! i) = away_score (rows df ! i) then 1
                             else 0))"
    if d: "distinct (row_labels df)"
  proof -
    have pts: "\<forall>i < length (rows df).
                 col ! i = (case awarded team_name (rows df ! i) of None \<Rightarrow> 0 | Some p \<Rightarrow> p)"
      using points_column_distinct [OF d, of team_name] col(1) by simp
    show ?thesis
    proof (intro allI impI)
      fix i assume "i < length (rows df)"
      then have "col ! i = (case awarded team_name (rows df ! i) of None \<Rightarrow> 0 | Some p \<Rightarrow> p)"
        using pts by blast
      then show "(home_team (rows df ! i) = team_name \<longrightarrow>
                  col ! i = (if home_score (rows df ! i) > away_score (rows df ! i) then 3
                             else if home_score (rows df ! i) = away_score (rows df ! i) then 1
                             else 0)) \<and>
               (home_team (rows df ! i) \<noteq> team_name \<and> away_team (rows df ! i) = team_name \<longrightarrow>
                  col ! i = (if away_score (rows df ! i) > home_score (rows df ! i) then 3
                             else if home_score (rows df ! i) = away_score (rows df ! i) then 1
                             else 0))"
        by (simp add: awarded_def)
    qed
  qed
  show ?thesis
    using col(1,2) in_range computed by blast
qed

text \<open>
  The amended claim C3 on \<open>rovers\<close>, whose labels are distinct: a home win (third row)
  gives 3, an away defeat (second row) 0, an away draw (last row) 1.
\<close>

theorem points_from_match_rule_witness:
  "distinct (row_labels rovers)
   \<and> (\<exists>col. points_from_match (add_points_from_match_column rovers ''Rovers'') = Some col
         \<and> length col = 8 \<and> col ! 2 = 3 \<and> col ! 1 = 0 \<and> col ! 7 = 1)"
proof -
  have d: "distinct (row_labels rovers)"
    by (simp add: rovers_def row_labels_def)
  obtain col where col:
      "points_from_match (add_points_from_match_column rovers ''Rovers'') = Some col"
      "length col = length (rows rovers)"
      "distinct (row_labels rovers) \<longrightarrow>
         (\<forall>i < length (rows rovers).
            (home_team (rows rovers ! i) = ''Rovers'' \<longrightarrow>
               col ! i = (if home_score (rows rovers ! i) > away_score (rows rovers ! i) then 3
                          else if home_score (rows rovers ! i) = away_score (rows rovers ! i) then 1
                          else 0)) \<and>
            (home_team (rows rovers ! i) \<noteq> ''Rovers'' \<and> away_team (rows rovers ! i) = ''Rovers'' \<longrightarrow>
               col ! i = (if away_score (rows rovers ! i) > home_score (rows rovers ! i) then 3
                          else if home_score (rows rovers ! i) = away_score (rows rovers ! i) then 1
                          else 0)))"
    using points_from_match_rule [of rovers "''Rovers''"] by blast
  have r: "\<forall>i < length (rows rovers).
            (home_team (rows rovers ! i) = ''Rovers'' \<longrightarrow>
               col ! i = (if home_score (rows rovers ! i) > away_score (rows rovers ! i) then 3
                          else if home_score (rows rovers ! i) = away_score (rows rovers ! i) then 1
                          else 0)) \<and>
            (home_team (rows rovers ! i) \<noteq> ''Rovers'' \<and> away_team (rows rovers ! i) = ''Rovers'' \<longrightarrow>
               col ! i = (if away_score (rows rovers ! i) > home_score (rows rovers ! i) then 3
                          else if home_score (rows rovers ! i) = away_score (rows rovers ! i) then 1
                          else 0))"
    using col(3) d by blast
  have "col ! 2 = 3" "col ! 1 = 0" "col ! 7 = 1"
    using r [rule_format, of 2] r [rule_format, of 1] r [rule_format, of 7]
    by (simp_all add: rovers_def rows_def fixture_def)
  moreover have "length col = 8"
    using col(2) by (simp add: rovers_def)
  ultimately show ?thesis
    using col(1) d by blast
qed

text \<open>
  Claim C9, as stated, fails on a frame in which two rows carry one label. On
  \<open>concatenated\<close> and the team Rovers the second row, City against Albion, does not
  involve the team, and the column holds 3 for it: the assignment for the fourth row, a home
  win of the team under the same label, reaches it too.
\<close>

theorem uninvolved_repeated_label_counterexample:
  "home_team (rows concatenated ! 1) \<noteq> ''Rovers''
   \<and> away_team (rows concatenated ! 1) \<noteq> ''Rovers''
   \<and> points_from_match (add_points_from_match_column concatenated ''Rovers'') = Some [0, 3, 0, 3]"
  by (simp add: add_points_from_match_column_def concatenated_def rows_def row_labels_def
        fixture_def award_def loc_assign_def)

text \<open>
  Claim C9, amended. In a frame whose row labels are distinct, every row in which the named
  team is neither the home team nor the away team keeps the value 0 that
  \<open>points_from_match\<close> was initialised with.
\<close>

theorem uninvolved_row_keeps_zero:
  assumes "distinct (row_labels df)"
  shows "\<exists>col. points_from_match (add_points_from_match_column df team_name) = Some col \<and>
           (\<forall>i < length (rows df).
              home_team (rows df ! i) \<noteq> team_name \<and> away_team (rows df ! i) \<noteq> team_name \<longrightarrow>
              col ! i = 0)"
proof -
  obtain col where col: "points_from_match (add_points_from_match_column df team_name) = Some col"
      "\<forall>i < length (rows df).
         col ! i = (case awarded team_name (rows df ! i) of None \<Rightarrow> 0 | Some p \<Rightarrow> p)"
    using points_column_distinct [OF assms] by blast
  have "col ! i = 0" if "i < length (rows df)" "home_team (rows df ! i) \<noteq> team_name"
      "away_team (rows df ! i) \<noteq> team_name" for i
    using col(2) that by (simp add: awarded_def)
  then show ?thesis using col(1) by blast
qed

text \<open>
  The amended claim C9 on the provider table, whose labels are distinct, and the team
  Sunderland: the second row, Swansea City against Aston Villa, keeps 0.
\<close>

theorem uninvolved_row_keeps_zero_witness:
  "distinct (map fst season_table)
   \<and> (\<exists>col. points_from_match
           (add_points_from_match_column
              \<lparr>labelled = season_table, is_manager_bounce = None, points_from_match = None\<rparr>
              ''Sunderland'') = Some col
         \<and> col ! 1 = 0)"
proof -
  let ?df = "\<lparr>labelled = season_table, is_manager_bounce = None, points_from_match = None\<rparr>"
  have d: "distinct (map fst season_table)"
    by (simp add: season_table_def)
  then have d': "distinct (row_labels ?df)"
    by (simp add: row_labels_def)
  obtain col where col:
      "points_from_match (add_points_from_match_column ?df ''Sunderland'') = Some col"
      "\<forall>i < length (rows ?df).
         home_team (rows ?df ! i) \<noteq> ''Sunderland'' \<and> away_team (rows ?df ! i) \<noteq> ''Sunderland''
         \<longrightarrow> col ! i = 0"
    using uninvolved_row_keeps_zero [OF d', of "''Sunderland''"] by blast
  have "col ! 1 = 0"
    using col(2) [rule_format, of 1] by (simp add: season_table_def rows_def fixture_def)
  then show ?thesis
    using col(1) d by blast
qed

section \<open>Frame conditions\<close>

text \<open>
  Claim C10. Both operations leave the rows of the frame, that is every column they were
  given and the row order, as they were. Whenever \<open>add_managerial_change_column\<close> returns, the
  returned frame differs from the given one at most in the column \<open>is_manager_bounce\<close>, which
  is present and has one value per row when one or two managers were hired.
  \<open>add_points_from_match_column\<close> changes only the column \<open>points_from_match\<close>, which is
  present afterwards.
\<close>

theorem columns_frame:
  "(add_managerial_change_column df h1 h2 nh n = Inr df' \<longrightarrow>
      rows df' = rows df \<and> points_from_match df' = points_from_match df
      \<and> df' = df\<lparr>is_manager_bounce := is_manager_bounce df'\<rparr>
      \<and> (nh = 1 \<or> nh = 2 \<longrightarrow>
           (\<exists>col. is_manager_bounce df' = Some col \<and> length col = length (rows df))))
   \<and> rows (add_points_from_match_column df team_name) = rows df
   \<and> is_manager_bounce (add_points_from_match_column df team_name) = is_manager_bounce df
   \<and> add_points_from_match_column df team_name
       = df\<lparr>points_from_match := points_from_match (add_points_from_match_column df team_name)\<rparr>
   \<and> points_from_match (add_points_from_match_column df team_name) \<noteq> None"
proof -
  have "rows df' = rows df \<and> points_from_match df' = points_from_match df
        \<and> df' = df\<lparr>is_manager_bounce := is_manager_bounce df'\<rparr>
        \<and> (nh = 1 \<or> nh = 2 \<longrightarrow>
             (\<exists>col. is_manager_bounce df' = Some col \<and> length col = length (rows df)))"
    if run: "add_managerial_change_column df h1 h2 nh n = Inr df'"
  proof -
    have "df' = df\<lparr>is_manager_bounce := is_manager_bounce df'\<rparr>"
      using run
      by (auto simp: add_managerial_change_column_def Let_def split: if_splits sum.splits)
    then show ?thesis
      using labelled_rows [OF run] labelled_columns [OF run] by blast
  qed
  moreover have "rows (add_points_from_match_column df team_name) = rows df"
    "is_manager_bounce (add_points_from_match_column df team_name) = is_manager_bounce df"
    "add_points_from_match_column df team_name
       = df\<lparr>points_from_match := points_from_match (add_points_from_match_column df team_name)\<rparr>"
    "points_from_match (add_points_from_match_column df team_name) \<noteq> None"
    by (simp_all add: add_points_from_match_column_def)
  ultimately show ?thesis by blast
qed

text \<open>
  Claim C10 on \<open>rovers\<close>: labelling with the hire date 2015-10-09 and a window of five
  returns a frame with the rows of \<open>rovers\<close>, still without a points column, and awarding
  points leaves the rows and the absent label column alone.
\<close>

theorem columns_frame_witness:
  "\<exists>df'. add_managerial_change_column rovers 20151009 17530101 1 5 = Inr df'
         \<and> rows df' = rows rovers \<and> points_from_match df' = None
         \<and> (\<exists>col. is_manager_bounce df' = Some col \<and> length col = 8)
         \<and> rows (add_points_from_match_column rovers ''Rovers'') = rows rovers
         \<and> is_manager_bounce (add_points_from_match_column rovers ''Rovers'') = None"
proof -
  have run: "add_managerial_change_column rovers 20151009 17530101 1 5
               = Inr (rovers\<lparr>is_manager_bounce := Some [0, 1, 1, 1, 1, 1, 0, 0]\<rparr>)"
    by (simp add: add_managerial_change_column_def rovers_def rows_def fixture_def iloc_def np_select_def)
  have "length (rows rovers) = 8" "points_from_match rovers = None" "is_manager_bounce rovers = None"
    by (simp_all add: rovers_def)
  then show ?thesis
    using run columns_frame [of rovers 20151009 17530101 1 5
        "rovers\<lparr>is_manager_bounce := Some [0, 1, 1, 1, 1, 1, 0, 0]\<rparr>" "''Rovers''"]
    by auto
qed

section \<open>Claims about the pipeline and the chart\<close>

text \<open>
  Claim C7. Two runs of \<open>add_manager_change_and_points_won_columns_to_df\<close> on the same
  fetched table, team and hire-date configuration end alike: both raise the same error, or
  both return frames with the same \<open>is_manager_bounce\<close> labels and the same
  \<open>points_from_match\<close> values. A run reads nothing but its arguments and the fetched table.
\<close>

theorem pipeline_two_runs:
  assumes "fetched1 = fetched2"
    and "run1 = add_manager_change_and_points_won_columns_to_df sort_values fetched1 team_name
                  h1 h2 number_hired_managers n"
    and "run2 = add_manager_change_and_points_won_columns_to_df sort_values fetched2 team_name
                  h1 h2 number_hired_managers n"
  shows "map_sum id is_manager_bounce run1 = map_sum id is_manager_bounce run2
         \<and> map_sum id points_from_match run1 = map_sum id points_from_match run2"
  using assms by simp

text \<open>
  Claim C7 on the provider table, for Sunderland with the hire date 2015-10-09: both runs
  label the five matches of May and award the same points.
\<close>

theorem pipeline_two_runs_witness:
  "map_sum id is_manager_bounce
     (add_manager_change_and_points_won_columns_to_df by_match_date season_table
        ''Sunderland'' 20151009 17530101 1 5) = Inr (Some [0, 1, 1, 1, 1, 1])
   \<and> map_sum id points_from_match
     (add_manager_change_and_points_won_columns_to_df by_match_date season_table
        ''Sunderland'' 20151009 17530101 1 5) = Inr (Some [0, 3, 3, 3, 1, 0])"
proof -
  let ?run = "add_manager_change_and_points_won_columns_to_df by_match_date season_table
                ''Sunderland'' 20151009 17530101 1 5"
  have first: "map_sum id is_manager_bounce ?run = Inr (Some [0, 1, 1, 1, 1, 1])"
      "map_sum id points_from_match ?run = Inr (Some [0, 3, 3, 3, 1, 0])"
    by code_simp+
  show ?thesis
    using first pipeline_two_runs [of season_table season_table ?run by_match_date
        "''Sunderland''" 20151009 17530101 1 5 ?run]
    by simp
qed

text \<open>
  Claim C6. Whenever \<open>plot_overall_points_per_game_diff\<close> reaches its chart, the six
  pipeline runs have returned labelled frames, and for each label (1 for bounce, 0 for
  non-bounce) the bar height is \<^verbatim>\<open>np.mean\<close> of one list, the \<open>points_from_match\<close> values of
  exactly the matches of the six frames that carry the label, each match once; the sample
  size written in the bar is the number of those matches.
\<close>

theorem chart_groups:
  assumes "plot_overall_points_per_game_diff sort_values np_mean all_matches = Inr chart"
  shows "\<exists>sunderland liverpool swansea av chelsea newcastle.
           add_manager_change_and_points_won_columns_to_df sort_values all_matches
             ''Sunderland'' 20151009 17530101 1 5 = Inr sunderland
         \<and> add_manager_change_and_points_won_columns_to_df sort_values all_matches
             ''Liverpool'' 20151009 17530101 1 5 = Inr liverpool
         \<and> add_manager_change_and_points_won_columns_to_df sort_values all_matches
             ''Swansea City'' 20151209 20160118 2 5 = Inr swansea
         \<and> add_manager_change_and_points_won_columns_to_df sort_values all_matches
             ''Aston Villa'' 20151102 20160329 2 5 = Inr av
         \<and> add_manager_change_and_points_won_columns_to_df sort_values all_matches
             ''Chelsea'' 20151220 17530101 1 5 = Inr chelsea
         \<and> add_manager_change_and_points_won_columns_to_df sort_values all_matches
             ''Newcastle United'' 20160311 17530101 1 5 = Inr newcastle
         \<and> bar_heights chart
             = [np_mean (concat (map (\<lambda>df. group_points df 1)
                                     [sunderland, liverpool, swansea, av, chelsea, newcastle])),
                np_mean (concat (map (\<lambda>df. group_points df 0)
                                     [sunderland, liverpool, swansea, av, chelsea, newcastle]))]
         \<and> n_matches chart
             = [sum_list (map (\<lambda>df. group_size df 1)
                              [sunderland, liverpool, swansea, av, chelsea, newcastle]),
                sum_list (map (\<lambda>df. group_size df 0)
                              [sunderland, liverpool, swansea, av, chelsea, newcastle])]"
proof -
  obtain s l w a c n where
      s: "team_points sort_values all_matches ''Sunderland'' 20151009 17530101 1 = Inr s"
    and l: "team_points sort_values all_matches ''Liverpool'' 20151009 17530101 1 = Inr l"
    and w: "team_points sort_values all_matches ''Swansea City'' 20151209 20160118 2 = Inr w"
    and a: "team_points sort_values all_matches ''Aston Villa'' 20151102 20160329 2 = Inr a"
    and c: "team_points sort_values all_matches ''Chelsea'' 20151220 17530101 1 = Inr c"
    and n: "team_points sort_values all_matches ''Newcastle United'' 20160311 17530101 1 = Inr n"
    and chart: "chart = \<lparr>bar_heights = [np_mean (fst s @ fst l @ fst w @ fst a @ fst c @ fst n),
                                        np_mean (snd s @ snd l @ snd w @ snd a @ snd c @ snd n)],
                         n_matches = [length (fst s @ fst l @ fst w @ fst a @ fst c @ fst n),
                                      length (snd s @ snd l @ snd w @ snd a @ snd c @ snd n)]\<rparr>"
    using assms
    by (auto simp: plot_overall_points_per_game_diff_def Let_def split: sum.splits)
  obtain ds where ds: "add_manager_change_and_points_won_columns_to_df sort_values all_matches
             ''Sunderland'' 20151009 17530101 1 5 = Inr ds"
      "fst s = group_points ds 1" "snd s = group_points ds 0"
      "length (fst s) = group_size ds 1" "length (snd s) = group_size ds 0"
    using team_points_groups [OF s] by auto
  obtain dl where dl: "add_manager_change_and_points_won_columns_to_df sort_values all_matches
             ''Liverpool'' 20151009 17530101 1 5 = Inr dl"
      "fst l = group_points dl 1" "snd l = group_points dl 0"
      "length (fst l) = group_size dl 1" "length (snd l) = group_size dl 0"
    using team_points_groups [OF l] by auto
  obtain dw where dw: "add_manager_change_and_points_won_columns_to_df sort_values all_matches
             ''Swansea City'' 20151209 20160118 2 5 = Inr dw"
      "fst w = group_points dw 1" "snd w = group_points dw 0"
      "length (fst w) = group_size dw 1" "length (snd w) = group_size dw 0"
    using team_points_groups [OF w] by auto
  obtain da where da: "add_manager_change_and_points_won_columns_to_df sort_values all_matches
             ''Aston Villa'' 20151102 20160329 2 5 = Inr da"
      "fst a = group_points da 1" "snd a = group_points da 0"
      "length (fst a) = group_size da 1" "length (snd a) = group_size da 0"
    using team_points_groups [OF a] by auto
  obtain dc where dc: "add_manager_change_and_points_won_columns_to_df sort_values all_matches
             ''Chelsea'' 20151220 17530101 1 5 = Inr dc"
      "fst c = group_points dc 1" "snd c = group_points dc 0"
      "length (fst c) = group_size dc 1" "length (snd c) = group_size dc 0"
    using team_points_groups [OF c] by auto
  obtain dn where dn: "add_manager_change_and_points_won_columns_to_df sort_values all_matches
             ''Newcastle United'' 20160311 17530101 1 5 = Inr dn"
      "fst n = group_points dn 1" "snd n = group_points dn 0"
      "length (fst n) = group_size dn 1" "length (snd n) = group_size dn 0"
    using team_points_groups [OF n] by auto
  have h: "bar_heights chart
             = [np_mean (concat (map (\<lambda>df. group_points df 1) [ds, dl, dw, da, dc, dn])),
                np_mean (concat (map (\<lambda>df. group_points df 0) [ds, dl, dw, da, dc, dn]))]"
    by (simp add: chart ds(2,3) dl(2,3) dw(2,3) da(2,3) dc(2,3) dn(2,3))
  have "length (fst s @ fst l @ fst w @ fst a @ fst c @ fst n)
          = sum_list (map (\<lambda>df. group_size df 1) [ds, dl, dw, da, dc, dn])"
       "length (snd s @ snd l @ snd w @ snd a @ snd c @ snd n)
          = sum_list (map (\<lambda>df. group_size df 0) [ds, dl, dw, da, dc, dn])"
    by (simp_all add: ds(4,5) dl(4,5) dw(4,5) da(4,5) dc(4,5) dn(4,5))
  then have m: "n_matches chart
             = [sum_list (map (\<lambda>df. group_size df 1) [ds, dl, dw, da, dc, dn]),
                sum_list (map (\<lambda>df. group_size df 0) [ds, dl, dw, da, dc, dn])]"
    by (simp add: chart)
  show ?thesis
    using ds(1) dl(1) dw(1) da(1) dc(1) dn(1) h m by blast
qed

text \<open>
  Claim C6 on the provider table, with \<open>(sum, length)\<close> standing for \<^verbatim>\<open>np.mean\<close>: thirty
  bounce matches with 39 points, six other matches with 8 points.
\<close>

theorem chart_groups_witness:
  "plot_overall_points_per_game_diff by_match_date (\<lambda>xs. (sum_list xs, length xs))
       season_table
     = Inr \<lparr>bar_heights = [(39, 30), (8, 6)], n_matches = [30, 6]\<rparr>
   \<and> (\<exists>frames :: (nat, unit) dataframe list. length frames = 6
        \<and> [(39, 30), (8, 6)]
            = [(sum_list (concat (map (\<lambda>df. group_points df 1) frames)),
                length (concat (map (\<lambda>df. group_points df 1) frames))),
               (sum_list (concat (map (\<lambda>df. group_points df 0) frames)),
                length (concat (map (\<lambda>df. group_points df 0) frames)))]
        \<and> [30, 6] = [sum_list (map (\<lambda>df. group_size df 1) frames),
                      sum_list (map (\<lambda>df. group_size df 0) frames)])"
proof -
  let ?chart = "\<lparr>bar_heights = [(39::int, 30::nat), (8, 6)], n_matches = [30, 6]\<rparr>"
  have run: "plot_overall_points_per_game_diff by_match_date
               (\<lambda>xs. (sum_list xs, length xs)) season_table = Inr ?chart"
    by code_simp
  obtain s l w a c n :: "(nat, unit) dataframe" where
      "bar_heights ?chart
         = [(sum_list (concat (map (\<lambda>df. group_points df 1) [s, l, w, a, c, n])),
             length (concat (map (\<lambda>df. group_points df 1) [s, l, w, a, c, n]))),
            (sum_list (concat (map (\<lambda>df. group_points df 0) [s, l, w, a, c, n])),
             length (concat (map (\<lambda>df. group_points df 0) [s, l, w, a, c, n])))]"
      "n_matches ?chart
         = [sum_list (map (\<lambda>df. group_size df 1) [s, l, w, a, c, n]),
            sum_list (map (\<lambda>df. group_size df 0) [s, l, w, a, c, n])]"
    using chart_groups [OF run] by blast
  then have "length [s, l, w, a, c, n] = 6
        \<and> [(39, 30), (8, 6)]
            = [(sum_list (concat (map (\<lambda>df. group_points df 1) [s, l, w, a, c, n])),
                length (concat (map (\<lambda>df. group_points df 1) [s, l, w, a, c, n]))),
               (sum_list (concat (map (\<lambda>df. group_points df 0) [s, l, w, a, c, n])),
                length (concat (map (\<lambda>df. group_points df 0) [s, l, w, a, c, n])))]
        \<and> [30, 6] = [sum_list (map (\<lambda>df. group_size df 1) [s, l, w, a, c, n]),
                      sum_list (map (\<lambda>df. group_size df 0) [s, l, w, a, c, n])]"
    by simp
  then have "\<exists>frames :: (nat, unit) dataframe list. length frames = 6
        \<and> [(39, 30), (8, 6)]
            = [(sum_list (concat (map (\<lambda>df. group_points df 1) frames)),
                length (concat (map (\<lambda>df. group_points df 1) frames))),
               (sum_list (concat (map (\<lambda>df. group_points df 0) frames)),
                length (concat (map (\<lambda>df. group_points df 0) frames)))]
        \<and> [30, 6] = [sum_list (map (\<lambda>df. group_size df 1) frames),
                      sum_list (map (\<lambda>df. group_size df 0) frames)]"
    by (rule exI)
  with run show ?thesis
    by (rule conjI)
qed

end
